theory Spec2Isabelle
  imports Main "HOL-Library.Sublist" "HOL-Library.AList"
begin

section \<open>Strings and path names\<close>

text \<open>
  The program is \<^verbatim>\<open>bin/setup_tree.py\<close>. Python strings are modelled as \<^typ>\<open>string\<close>;
  the configuration names and paths the program handles are taken to be ASCII, so that
  \<^verbatim>\<open>str.upper\<close> only maps \<^verbatim>\<open>a-z\<close> to \<^verbatim>\<open>A-Z\<close>.
\<close>

type_synonym path = string

definition nl :: string where
  "nl = [CHR 0x0A]"

definition upper_char :: "char \<Rightarrow> char" where
  "upper_char c =
     (case map_of (zip ''abcdefghijklmnopqrstuvwxyz'' ''ABCDEFGHIJKLMNOPQRSTUVWXYZ'') c of
        Some u \<Rightarrow> u
      | None \<Rightarrow> c)"

definition upper :: "string \<Rightarrow> string" where
  "upper s = map upper_char s"

text \<open>Python's \<^verbatim>\<open>sub in s\<close> on strings: \<^verbatim>\<open>sub\<close> occurs in \<^verbatim>\<open>s\<close> as a contiguous block.\<close>

fun in_str :: "string \<Rightarrow> string \<Rightarrow> bool" where
  "in_str sub [] = (sub = [])"
| "in_str sub (c # cs) = (prefix sub (c # cs) \<or> in_str sub cs)"

text \<open>\<^verbatim>\<open>str.rfind\<close> for a single character: the last index, or -1.\<close>

fun rfind :: "char \<Rightarrow> string \<Rightarrow> int" where
  "rfind c [] = - 1"
| "rfind c (x # xs) =
     (let r = rfind c xs in if 0 \<le> r then r + 1 else if x = c then 0 else - 1)"

definition is_space :: "char \<Rightarrow> bool" where
  "is_space c = (c \<in> set [CHR 0x20, CHR 0x09, CHR 0x0A, CHR 0x0B, CHR 0x0C, CHR 0x0D,
                            CHR 0x1C, CHR 0x1D, CHR 0x1E, CHR 0x1F])"

definition rstrip_chars :: "(char \<Rightarrow> bool) \<Rightarrow> string \<Rightarrow> string" where
  "rstrip_chars P s = rev (dropWhile P (rev s))"

definition strip :: "string \<Rightarrow> string" where
  "strip s = rstrip_chars is_space (dropWhile is_space s)"

definition startswith :: "string \<Rightarrow> string \<Rightarrow> bool" where
  "startswith s pre = prefix pre s"

definition endswith :: "string \<Rightarrow> string \<Rightarrow> bool" where
  "endswith s suf = prefix (rev suf) (rev s)"

text \<open>\<^verbatim>\<open>posixpath.join\<close> for two components.\<close>

definition path_join :: "path \<Rightarrow> string \<Rightarrow> path" where
  "path_join a b =
     (if startswith b ''/'' then b
      else if a = [] \<or> endswith a ''/'' then a @ b
      else a @ ''/'' @ b)"

text \<open>\<^verbatim>\<open>posixpath.split\<close>, \<^verbatim>\<open>basename\<close> and \<^verbatim>\<open>splitext\<close> (the root part).\<close>

definition path_split :: "path \<Rightarrow> path \<times> string" where
  "path_split p =
     (let i = nat (rfind CHR ''/'' p + 1); head = take i p; tail = drop i p
      in (if head \<noteq> [] \<and> head \<noteq> replicate (length head) CHR ''/''
          then rstrip_chars (\<lambda>c. c = CHR ''/'') head else head, tail))"

definition basename :: "path \<Rightarrow> string" where
  "basename p = drop (nat (rfind CHR ''/'' p + 1)) p"

definition splitext_root :: "path \<Rightarrow> path" where
  "splitext_root p =
     (let sepIndex = rfind CHR ''/'' p; dotIndex = rfind CHR ''.'' p
      in if sepIndex < dotIndex \<and>
            (\<exists>c \<in> set (drop (nat (sepIndex + 1)) (take (nat dotIndex) p)). c \<noteq> CHR ''.'')
         then take (nat dotIndex) p else p)"

section \<open>Local time and \<^verbatim>\<open>strftime\<close>\<close>

record struct_time =
  tm_year :: nat
  tm_mon :: nat
  tm_mday :: nat
  tm_hour :: nat
  tm_min :: nat

fun str_nat :: "nat \<Rightarrow> string" where
  "str_nat n =
     (if n < 10 then [''0123456789'' ! n] else str_nat (n div 10) @ [''0123456789'' ! (n mod 10)])"

declare str_nat.simps [simp del]

definition pad2 :: "nat \<Rightarrow> string" where
  "pad2 n = (if n < 10 then ''0'' @ str_nat n else str_nat n)"

definition month_abbr :: "nat \<Rightarrow> string" where
  "month_abbr m =
     (if 1 \<le> m \<and> m \<le> 12
      then [''Jan'', ''Feb'', ''Mar'', ''Apr'', ''May'', ''Jun'',
            ''Jul'', ''Aug'', ''Sep'', ''Oct'', ''Nov'', ''Dec''] ! (m - 1)
      else ''?'')"

text \<open>\<^verbatim>\<open>time.strftime('%d-%b-%Y %H:%M', t)\<close> in the C locale.\<close>

definition strftime_dbYHM :: "struct_time \<Rightarrow> string" where
  "strftime_dbYHM t =
     pad2 (tm_mday t) @ ''-'' @ month_abbr (tm_mon t) @ ''-'' @ str_nat (tm_year t) @ '' '' @
     pad2 (tm_hour t) @ '':'' @ pad2 (tm_min t)"

section \<open>The operating system\<close>

text \<open>
  The file system is a finite table from path names to nodes. A path names the entry stored
  under exactly that string. Symbolic links are followed at the last component, at most 40
  times as on Linux; a link's target is read as a path of the same table. Directories are
  entries of their own: creating an entry does not look at its parent, and permissions are
  only what \<^verbatim>\<open>os.access(p, os.W_OK)\<close> reads. What the program prints and every change it
  makes to the file system is also recorded, in order, in \<open>events\<close>.
\<close>

datatype node =
    File (content: string) (mtime: int)
  | Dir (mtime: int)
  | Link (target: path)

datatype event =
    Print string
  | Remove path
  | Symlink path path
  | Makedirs path
  | Write path string
  | Copy2 path path

datatype error =
    KeyError string
  | FileExistsError path
  | FileNotFoundError path
  | IsADirectoryError path
  | TooManyLinks path
  | SameFileError path
  | AssertionError
  | EOFError

record world =
  files :: "(path \<times> node) list"
  events :: "event list"
  clock :: int
  localtime :: "int \<Rightarrow> struct_time"
  readonly :: "path list"
  getenv :: "(string \<times> string) list"
  stdin :: "string list"

type_synonym 'a res = "(error + 'a) \<times> world"

definition is_link :: "node option \<Rightarrow> bool" where
  "is_link n = (case n of Some (Link t) \<Rightarrow> True | _ \<Rightarrow> False)"

text \<open>Following links from \<open>p\<close>: the path and node reached, if any.\<close>

fun resolve :: "(path \<times> node) list \<Rightarrow> nat \<Rightarrow> path \<Rightarrow> (path \<times> node) option" where
  "resolve fs n p =
     (case map_of fs p of
        None \<Rightarrow> None
      | Some (Link t) \<Rightarrow> (case n of 0 \<Rightarrow> None | Suc m \<Rightarrow> resolve fs m t)
      | Some nd \<Rightarrow> Some (p, nd))"

declare resolve.simps [simp del]

text \<open>The path names looked at while following links from \<open>p\<close>.\<close>

fun chain :: "(path \<times> node) list \<Rightarrow> nat \<Rightarrow> path \<Rightarrow> path list" where
  "chain fs n p =
     p # (case map_of fs p of
            Some (Link t) \<Rightarrow> (case n of 0 \<Rightarrow> [] | Suc m \<Rightarrow> chain fs m t)
          | _ \<Rightarrow> [])"

declare chain.simps [simp del]

text \<open>The path a write through \<open>p\<close> lands on (\<^verbatim>\<open>open(p, 'w')\<close> follows links).\<close>

fun wtarget :: "(path \<times> node) list \<Rightarrow> nat \<Rightarrow> path \<Rightarrow> path option" where
  "wtarget fs n p =
     (case map_of fs p of
        Some (Link t) \<Rightarrow> (case n of 0 \<Rightarrow> None | Suc m \<Rightarrow> wtarget fs m t)
      | _ \<Rightarrow> Some p)"

declare wtarget.simps [simp del]

definition max_links :: nat where
  "max_links = 40"

definition os_stat :: "world \<Rightarrow> path \<Rightarrow> int option" where
  "os_stat w p = map_option (\<lambda>r. mtime (snd r)) (resolve (files w) max_links p)"

definition path_exists :: "world \<Rightarrow> path \<Rightarrow> bool" where
  "path_exists w p = (resolve (files w) max_links p \<noteq> None)"

definition path_islink :: "world \<Rightarrow> path \<Rightarrow> bool" where
  "path_islink w p = is_link (map_of (files w) p)"

definition path_isdir :: "world \<Rightarrow> path \<Rightarrow> bool" where
  "path_isdir w p =
     (case resolve (files w) max_links p of Some (q, Dir t) \<Rightarrow> True | _ \<Rightarrow> False)"

definition path_isfile :: "world \<Rightarrow> path \<Rightarrow> bool" where
  "path_isfile w p =
     (case resolve (files w) max_links p of Some (q, File c t) \<Rightarrow> True | _ \<Rightarrow> False)"

definition os_access_w :: "world \<Rightarrow> path \<Rightarrow> bool" where
  "os_access_w w p =
     (case resolve (files w) max_links p of
        Some (q, nd) \<Rightarrow> q \<notin> set (readonly w)
      | None \<Rightarrow> False)"

definition print :: "string \<Rightarrow> world \<Rightarrow> world" where
  "print s w = w\<lparr>events := events w @ [Print s]\<rparr>"

definition os_remove :: "path \<Rightarrow> world \<Rightarrow> world" where
  "os_remove p w =
     w\<lparr>files := AList.delete p (files w), events := events w @ [Remove p]\<rparr>"

definition os_symlink :: "path \<Rightarrow> path \<Rightarrow> world \<Rightarrow> unit res" where
  "os_symlink src link w =
     (if map_of (files w) link \<noteq> None then (Inl (FileExistsError link), w)
      else (Inr (), w\<lparr>files := AList.update link (Link src) (files w),
                       events := events w @ [Symlink src link]\<rparr>))"

definition os_makedirs :: "path \<Rightarrow> world \<Rightarrow> unit res" where
  "os_makedirs p w =
     (if map_of (files w) p \<noteq> None then (Inl (FileExistsError p), w)
      else (Inr (), w\<lparr>files := AList.update p (Dir (clock w)) (files w),
                       events := events w @ [Makedirs p]\<rparr>))"

text \<open>\<^verbatim>\<open>with open(p, 'w') as f: f.write(s)\<close>\<close>

definition write_text :: "path \<Rightarrow> string \<Rightarrow> world \<Rightarrow> unit res" where
  "write_text p s w =
     (case wtarget (files w) max_links p of
        None \<Rightarrow> (Inl (TooManyLinks p), w)
      | Some q \<Rightarrow>
          (case map_of (files w) q of
             Some (Dir t) \<Rightarrow> (Inl (IsADirectoryError p), w)
           | _ \<Rightarrow> (Inr (), w\<lparr>files := AList.update q (File s (clock w)) (files w),
                              events := events w @ [Write p s]\<rparr>)))"

text \<open>\<^verbatim>\<open>shutil.copy2(src, dst)\<close>: content and modification time of \<open>src\<close> go to \<open>dst\<close>.\<close>

definition copy2 :: "path \<Rightarrow> path \<Rightarrow> world \<Rightarrow> unit res" where
  "copy2 src dst w =
     (let dst' = (if path_isdir w dst then path_join dst (basename src) else dst);
          s = resolve (files w) max_links src;
          d = wtarget (files w) max_links dst'
      in if s \<noteq> None \<and> map_option fst s = d then (Inl (SameFileError src), w)
         else
           (case s of
              None \<Rightarrow> (Inl (FileNotFoundError src), w)
            | Some (sp, Link t) \<Rightarrow> (Inl (FileNotFoundError src), w)
            | Some (sp, Dir t) \<Rightarrow> (Inl (IsADirectoryError src), w)
            | Some (sp, File c t) \<Rightarrow>
                (case d of
                   None \<Rightarrow> (Inl (TooManyLinks dst'), w)
                 | Some q \<Rightarrow>
                     (case map_of (files w) q of
                        Some (Dir t') \<Rightarrow> (Inl (IsADirectoryError dst'), w)
                      | _ \<Rightarrow> (Inr (), w\<lparr>files := AList.update q (File c t) (files w),
                                         events := events w @ [Copy2 src dst']\<rparr>)))))"

section \<open>The tree environment\<close>

text \<open>
  \<^verbatim>\<open>environ\<close> maps section names to their variables; the reserved section
  \<^verbatim>\<open>default\<close> holds the configuration's \<open>name\<close> and the flag \<open>current\<close>. The other sections are
  kept as association lists in the mapping's order.
\<close>

record defaults =
  name :: string
  current :: bool

record environ =
  default_section :: defaults
  sections :: "(string \<times> (string \<times> path) list) list"

definition lookup_var :: "environ \<Rightarrow> string \<Rightarrow> string \<Rightarrow> error + path" where
  "lookup_var environ section key =
     (case map_of (sections environ) section of
        None \<Rightarrow> Inl (KeyError section)
      | Some vals \<Rightarrow>
          (case map_of vals key of None \<Rightarrow> Inl (KeyError key) | Some v \<Rightarrow> Inr v))"

section \<open>Symlink building\<close>

definition remove_link :: "path \<Rightarrow> world \<Rightarrow> world" where
  "remove_link link w = (if path_islink w link then os_remove link w else w)"

definition make_symlink :: "path \<Rightarrow> path \<Rightarrow> world \<Rightarrow> unit res" where
  "make_symlink src link w = os_symlink src link (remove_link link w)"

definition table_header :: string where
  \<open>table_header =
     ''<table id="list" cellpadding="0.1em" cellspacing="0">'' @ nl @
     ''<colgroup><col width="55%"/><col width="20%"/><col width="25%"/></colgroup>'' @ nl @
     ''<thead>'' @ nl @
     ''    <tr><th><a href="?C=N&O=A">File Name</a>&nbsp;<a href="?C=N&O=D">&nbsp;&darr;&nbsp;</a></th><th><a href="?C=S&O=A">File Size</a>&nbsp;<a href="?C=S&O=D">&nbsp;&darr;&nbsp;</a></th><th><a href="?C=M&O=A">Date</a>&nbsp;<a href="?C=M&O=D">&nbsp;&darr;&nbsp;</a></th></tr>'' @ nl @
     ''</thead><tbody>'' @ nl @
     ''    <tr><td><a href="../">Parent directory/</a></td><td>-</td><td>-</td></tr>''\<close>

definition table_footer :: string where
  \<open>table_footer = ''</tbody></table>''\<close>

definition table_row :: "string \<Rightarrow> string \<Rightarrow> string" where
  \<open>table_row n stattime =
     ''    <tr><td><a href="'' @ n @ ''/">'' @ n @ ''/</a></td><td>-</td><td>'' @ stattime @
     ''</td></tr>'' @ nl\<close>

text \<open>The body of the inner loop of \<^verbatim>\<open>create_index_table\<close>, for one variable.\<close>

definition loop_body :: "path \<Rightarrow> string \<Rightarrow> string \<times> path \<Rightarrow> string \<Rightarrow> world \<Rightarrow> string res" where
  "loop_body envdir section v table w =
     (let tree_name = fst v; tree_path = snd v;
          skipmsg = ''Skipping '' @ tree_name @ '' for '' @ section
      in if in_str ''_root'' tree_name then (Inr table, w)
         else
           let src = tree_path; link = path_join envdir (upper tree_name)
           in (case os_stat w src of
                 None \<Rightarrow>
                   (Inr table,
                    remove_link link (print (src @ '' does not appear to exist, skipping...'') w))
               | Some st_mtime \<Rightarrow>
                   let stattime = strftime_dbYHM (localtime w st_mtime)
                   in if section = ''general'' \<and> in_str ''sas_base_dir'' tree_name
                      then (Inr table, print skipmsg w)
                      else
                        (case (if section = ''general'' \<and>
                                  tree_name \<in> set [''cas_load'', ''staging_data'']
                               then (if path_exists w src then make_symlink src link w
                                     else (Inr (), print skipmsg w))
                               else make_symlink src link
                                      (print (''Processing '' @ tree_name @ '' for '' @ section) w))
                         of
                           (Inl e, w') \<Rightarrow> (Inl e, w')
                         | (Inr u, w') \<Rightarrow>
                             (Inr (if path_exists w' link
                                   then table @ table_row (upper tree_name) stattime
                                   else table), w'))))"

fun values_loop :: "path \<Rightarrow> string \<Rightarrow> (string \<times> path) list \<Rightarrow> string \<Rightarrow> world \<Rightarrow> string res" where
  "values_loop envdir section [] table w = (Inr table, w)"
| "values_loop envdir section (v # vs) table w =
     (case loop_body envdir section v table w of
        (Inl e, w') \<Rightarrow> (Inl e, w')
      | (Inr table', w') \<Rightarrow> values_loop envdir section vs table' w')"

fun sections_loop :: "path \<Rightarrow> (string \<times> (string \<times> path) list) list \<Rightarrow> string \<Rightarrow> world \<Rightarrow> string res" where
  "sections_loop envdir [] table w = (Inr table, w)"
| "sections_loop envdir ((section, vals) # rest) table w =
     (if section = ''default'' then sections_loop envdir rest table w
      else
        (case values_loop envdir section vals table w of
           (Inl e, w') \<Rightarrow> (Inl e, w')
         | (Inr table', w') \<Rightarrow> sections_loop envdir rest table' w'))"

definition create_index_table :: "environ \<Rightarrow> path \<Rightarrow> world \<Rightarrow> string res" where
  "create_index_table environ envdir w =
     (case sections_loop envdir (sections environ) table_header w of
        (Inl e, w') \<Rightarrow> (Inl e, w')
      | (Inr table, w') \<Rightarrow> (Inr (table @ table_footer), w'))"

record page_defaults = defaults +
  url :: string
  location :: string

definition index_header :: "page_defaults \<Rightarrow> string" where
  \<open>index_header d =
     ''<?xml version="1.0" encoding="UTF-8"?>'' @ nl @
     ''<!DOCTYPE html PUBLIC "-//W3C//DTD XHTML 1.0 Strict//EN" "http://www.w3.org/TR/xhtml1/DTD/xhtml1-strict.dtd">'' @ nl @
     ''<html xmlns="http://www.w3.org/1999/xhtml">'' @ nl @
     ''<head><meta name="viewport" content="width=device-width"/><meta http-equiv="content-type" content="text/html; charset=utf-8"/><style type="text/css">body,html {background:#fff;font-family:"Bitstream Vera Sans","Lucida Grande","Lucida Sans Unicode",Lucidux,Verdana,Lucida,sans-serif;}tr:nth-child(even) {background:#f4f4f4;}th,td {padding:0.1em 0.5em;}th {text-align:left;font-weight:bold;background:#eee;border-bottom:1px solid #aaa;}#list {border:1px solid #aaa;width:100%%;}a {color:#a33;}a:hover {color:#e33;}</style>'' @ nl @
     ''<link rel="stylesheet" href="'' @ url d @ ''/css/sas.css" type="text/css"/>'' @ nl @
     ''<title>Index of /sas/'' @ name d @ ''/env/</title>'' @ nl @
     ''</head><body><h1>Index of /sas/'' @ name d @ ''/env/</h1>'' @ nl\<close>

definition index_footer :: "page_defaults \<Rightarrow> string" where
  \<open>index_footer d =
     ''<h3><a href='' @ [CHR 0x27] @ url d @ ''/sas/'' @ [CHR 0x27] @ ''>'' @ location d @
     ''</a></h3>'' @ nl @
     ''<p>This directory contains links to the contents of'' @ nl @
     ''environment variables defined by the tree product, version '' @ name d @ ''.'' @ nl @
     ''To examine the <em>types</em> of files contained in each environment variable'' @ nl @
     ''directory, visit <a href="/datamodel/files/">the datamodel.</a></p>'' @ nl @
     ''</body></html>'' @ nl\<close>

definition create_index_page :: "environ \<Rightarrow> page_defaults \<Rightarrow> path \<Rightarrow> world \<Rightarrow> string res" where
  "create_index_page environ dflts envdir w =
     (let index = index_header dflts
      in case create_index_table environ envdir w of
           (Inl e, w') \<Rightarrow> (Inl e, w')
         | (Inr table, w') \<Rightarrow> (Inr (index @ table @ index_footer dflts), w'))"

definition create_env :: "environ \<Rightarrow> bool \<Rightarrow> bool \<Rightarrow> world \<Rightarrow> unit res" where
  "create_env environ mirror verbose w =
     (let dflts = \<lparr>name = name (default_section environ),
                    current = current (default_section environ),
                    url = (if mirror then ''https://data.mirror.sdss.org''
                           else ''https://data.sdss.org''),
                    location = (if mirror then ''SDSS-IV Science Archive Mirror (SAM)''
                                else ''SDSS-IV Science Archive Server (SAS)'')\<rparr>
      in case lookup_var environ ''general'' ''sas_root'' of
           Inl e \<Rightarrow> (Inl e, w)
         | Inr sas_root \<Rightarrow>
             if \<not> path_exists w sas_root
             then (Inr (),
                   if verbose
                   then print (sas_root @ '' doesn't exist, skipping env link creation.'') w
                   else w)
             else
               let w1 = (if verbose then print (''Found '' @ sas_root @ ''.'') w else w);
                   envdir = path_join sas_root ''env''
               in (case (if \<not> path_exists w1 envdir then os_makedirs envdir w1
                         else (Inr (), w1)) of
                     (Inl e, w2) \<Rightarrow> (Inl e, w2)
                   | (Inr u, w2) \<Rightarrow>
                       if \<not> os_access_w w2 envdir then (Inr (), w2)
                       else
                         (case create_index_page environ dflts envdir w2 of
                            (Inl e, w3) \<Rightarrow> (Inl e, w3)
                          | (Inr index, w3) \<Rightarrow>
                              write_text (path_join envdir ''index.html'') index w3)))"

text \<open>
  The variables in the order in which \<^verbatim>\<open>create_index_table\<close> visits them, each with its
  section, and the two nested loops as one loop over that list.
\<close>

definition traversal :: "environ \<Rightarrow> (string \<times> string \<times> path) list" where
  "traversal environ =
     concat (map (\<lambda>(section, vals). map (\<lambda>(n, p). (section, n, p)) vals)
               (filter (\<lambda>(section, vals). section \<noteq> ''default'') (sections environ)))"

fun vars_loop :: "path \<Rightarrow> (string \<times> string \<times> path) list \<Rightarrow> string \<Rightarrow> world \<Rightarrow> string res" where
  "vars_loop envdir [] table w = (Inr table, w)"
| "vars_loop envdir ((section, v) # vs) table w =
     (case loop_body envdir section v table w of
        (Inl e, w') \<Rightarrow> (Inl e, w')
      | (Inr table', w') \<Rightarrow> vars_loop envdir vs table' w')"

text \<open>
  The index table as the specification describes it: one row per variable that gets to the
  symlink step and whose link exists once the variable has been processed, in traversal
  order; a row holds the uppercased name as a directory link, \<^verbatim>\<open>-\<close> for the size and the
  target's modification time as \<^verbatim>\<open>DD-Mon-YYYY HH:MM\<close> in local time.
\<close>

definition reaches_symlink_step :: "world \<Rightarrow> string \<Rightarrow> string \<times> path \<Rightarrow> bool" where
  "reaches_symlink_step w section v =
     (\<not> in_str ''_root'' (fst v) \<and> os_stat w (snd v) \<noteq> None \<and>
      \<not> (section = ''general'' \<and> in_str ''sas_base_dir'' (fst v)))"

definition spec_row :: "string \<Rightarrow> struct_time \<Rightarrow> string" where
  \<open>spec_row n t =
     ''    <tr><td><a href="'' @ n @ ''/">'' @ n @ ''/</a></td><td>-</td><td>'' @
     pad2 (tm_mday t) @ ''-'' @ month_abbr (tm_mon t) @ ''-'' @ str_nat (tm_year t) @ '' '' @
     pad2 (tm_hour t) @ '':'' @ pad2 (tm_min t) @ ''</td></tr>'' @ nl\<close>

fun spec_rows :: "path \<Rightarrow> (string \<times> string \<times> path) list \<Rightarrow> world \<Rightarrow> string list" where
  "spec_rows envdir [] w = []"
| "spec_rows envdir ((section, v) # vs) w =
     (let w' = snd (loop_body envdir section v [] w)
      in (case os_stat w (snd v) of
            None \<Rightarrow> []
          | Some m \<Rightarrow>
              if reaches_symlink_step w section v \<and>
                 path_exists w' (path_join envdir (upper (fst v)))
              then [spec_row (upper (fst v)) (localtime w m)]
              else []) @
         spec_rows envdir vs w')"

section \<open>Writing the environment files\<close>

definition write_header :: "string \<Rightarrow> path \<Rightarrow> string \<Rightarrow> error + string" where
  \<open>write_header term tree_dir name' =
     (if term \<notin> set [''bash'', ''tsch'', ''modules''] then Inl AssertionError
      else
        let product_dir = rstrip_chars (\<lambda>c. c = CHR ''/'') tree_dir;
            base = (if term = ''bash'' then ''export'' else ''setenv'');
            hdr =
              (if term \<noteq> ''modules''
               then ''# Set up tree/'' @ name' @ '' for '' @ term @ nl @
                    base @ '' TREE_DIR '' @ product_dir @ nl @
                    base @ '' TREE_VER '' @ term @ nl @
                    base @ '' PATH $TREE_DIR/bin:$PATH'' @ nl @
                    base @ '' PYTHONPATH $TREE_DIR/python:$PYTHONPATH'' @ nl @
                    ''                ''
               else ''#%Module1.0'' @ nl @
                    ''proc ModulesHelp { } {'' @ nl @
                    ''    global product version'' @ nl @
                    ''    puts stderr "This module adds $product/$version to various paths"'' @ nl @
                    ''}'' @ nl @
                    ''set name tree'' @ nl @
                    ''set product tree'' @ nl @
                    ''set version '' @ name' @ nl @
                    ''conflict $product'' @ nl @
                    ''module-whatis "Sets up $product/$version in your environment"'' @ nl @
                    nl @
                    ''set PRODUCT_DIR '' @ product_dir @ nl @
                    ''setenv [string toupper $product]_DIR $PRODUCT_DIR'' @ nl @
                    ''setenv [string toupper $product]_VER $version'' @ nl @
                    ''prepend-path PATH $PRODUCT_DIR/bin'' @ nl @
                    ''prepend-path PYTHONPATH $PRODUCT_DIR/python'' @ nl @
                    nl @
                    ''                '')
        in Inr (strip hdr))\<close>

definition write_version :: "string \<Rightarrow> string" where
  "write_version name' = ''#%Module1.0'' @ nl @ ''set ModulesVersion '' @ name'"

text \<open>
  The two nested loops of \<^verbatim>\<open>write_file\<close>; the last argument is what has been written to the
  open file so far.
\<close>

fun write_values :: "(string \<Rightarrow> string \<Rightarrow> string) \<Rightarrow> (string \<times> path) list \<Rightarrow> string \<Rightarrow> string" where
  "write_values cmd [] f = f"
| "write_values cmd ((tree_name, tree_path) # vs) f =
     write_values cmd vs (f @ cmd (upper tree_name) tree_path)"

fun write_sections ::
  "(string \<Rightarrow> string \<Rightarrow> string) \<Rightarrow> (string \<times> (string \<times> path) list) list \<Rightarrow> string \<Rightarrow> string" where
  "write_sections cmd [] f = f"
| "write_sections cmd ((key, vals) # rest) f =
     (if key \<noteq> ''default''
      then write_sections cmd rest
             (write_values cmd vals (f @ ''#'' @ nl @ ''# '' @ key @ nl @ ''#'' @ nl))
      else write_sections cmd rest f)"

definition write_file :: "environ \<Rightarrow> string \<Rightarrow> path \<Rightarrow> path \<Rightarrow> world \<Rightarrow> unit res" where
  "write_file environ term out_dir tree_dir w =
     (let name' = name (default_section environ)
      in case write_header term tree_dir name' of
           Inl e \<Rightarrow> (Inl e, w)
         | Inr header \<Rightarrow>
             (case map_of [(''bash'', ''.sh''), (''tsch'', ''.csh''), (''modules'', ''.module'')] term of
                None \<Rightarrow> (Inl (KeyError term), w)
              | Some ext \<Rightarrow>
                  let cmd = (if term = ''bash''
                             then (\<lambda>k v. ''export '' @ k @ ''='' @ v @ nl)
                             else (\<lambda>k v. ''setenv '' @ k @ '' '' @ v @ nl));
                      filename = path_join out_dir (name' @ ext)
                  in (case write_text filename
                             (write_sections cmd (sections environ) (header @ nl)) w of
                        (Inl e, w1) \<Rightarrow> (Inl e, w1)
                      | (Inr u, w1) \<Rightarrow>
                          let modules_version = write_version name'
                          in if term = ''modules'' \<and> current (default_section environ)
                             then write_text (path_join out_dir ''.version'') modules_version w1
                             else (Inr (), w1))))"

text \<open>
  The body of the shell file as the specification describes it: for every section but
  \<^verbatim>\<open>default\<close>, in the mapping's order, a comment separator naming the section and then one
  \<^verbatim>\<open>export NAME=path\<close> line per variable, in the section's order.
\<close>

definition spec_export_line :: "string \<times> path \<Rightarrow> string" where
  "spec_export_line v = ''export '' @ upper (fst v) @ ''='' @ snd v @ nl"

definition spec_bash_body :: "environ \<Rightarrow> string" where
  "spec_bash_body environ =
     concat (map (\<lambda>(key, vals). ''#'' @ nl @ ''# '' @ key @ nl @ ''#'' @ nl @
                                  concat (map spec_export_line vals))
               (filter (\<lambda>(key, vals). key \<noteq> ''default'') (sections environ)))"

section \<open>Installing the module files\<close>

text \<open>\<^verbatim>\<open>str.split(c)\<close> for a single character.\<close>

fun split_char :: "char \<Rightarrow> string \<Rightarrow> string list" where
  "split_char c [] = [[]]"
| "split_char c (x # xs) =
     (if x = c then [] # split_char c xs
      else (case split_char c xs of [] \<Rightarrow> [[x]] | y # ys \<Rightarrow> (x # y) # ys))"

text \<open>
  \<^verbatim>\<open>glob.glob(os.path.join(filespath, '*.module'))\<close>: the entries of the directory whose name
  ends in \<^verbatim>\<open>.module\<close> and does not start with a dot, in the table's order. The directory part
  is taken literally.
\<close>

definition glob_modules :: "world \<Rightarrow> path \<Rightarrow> path list" where
  "glob_modules w filespath =
     (let dirname = fst (path_split (path_join filespath ''*.module''))
      in [k. k \<leftarrow> remdups (map fst (files w)),
             fst (path_split k) = dirname,
             path_join dirname (snd (path_split k)) = k,
             \<not> startswith (snd (path_split k)) ''.'',
             endswith (snd (path_split k)) ''.module''])"

fun copy_loop :: "path \<Rightarrow> path list \<Rightarrow> world \<Rightarrow> unit res" where
  "copy_loop tree_mod [] w = (Inr (), w)"
| "copy_loop tree_mod (mfile # ms) w =
     (let base = splitext_root (basename mfile);
          tree_out = path_join tree_mod base
      in case copy2 mfile tree_out w of
           (Inl e, w') \<Rightarrow> (Inl e, w')
         | (Inr u, w') \<Rightarrow> copy_loop tree_mod ms w')"

text \<open>\<^verbatim>\<open>input(prompt)\<close>: the prompt is printed and one line is read.\<close>

definition input :: "string \<Rightarrow> world \<Rightarrow> string res" where
  "input prompt w =
     (case stdin w of
        [] \<Rightarrow> (Inl EOFError, print prompt w)
      | l # ls \<Rightarrow> (Inr l, (print prompt w)\<lparr>stdin := ls\<rparr>))"

definition find_modules_path :: "string option \<Rightarrow> bool \<Rightarrow> world \<Rightarrow> string res" where
  "find_modules_path modules_path verbose w =
     (if modules_path \<noteq> None \<and> modules_path \<noteq> Some []
      then (Inr (case modules_path of Some m \<Rightarrow> m | None \<Rightarrow> []), w)
      else
        (case map_of (getenv w) ''MODULEPATH'' of
           None \<Rightarrow> input ''Enter the root path for your module files:'' w
         | Some modulepath \<Rightarrow>
             if modulepath = [] then input ''Enter the root path for your module files:'' w
             else
               (case split_char CHR '':'' modulepath of
                  [] \<Rightarrow> (Inr [], w)
                | m # ms \<Rightarrow>
                    (Inr m,
                     if 1 < length (m # ms) \<and> verbose
                     then print (''Multiple module paths found.  Using top one: '' @ m) w
                     else w))))"

definition copy_modules :: "path \<Rightarrow> string option \<Rightarrow> bool \<Rightarrow> world \<Rightarrow> unit res" where
  "copy_modules filespath modules_path verbose w =
     (case find_modules_path modules_path verbose w of
        (Inl e, w0) \<Rightarrow> (Inl e, w0)
      | (Inr modules_path', w0) \<Rightarrow>
          let tree_mod = path_join modules_path' ''tree''
          in (case (if \<not> path_isdir w0 tree_mod then os_makedirs tree_mod w0 else (Inr (), w0)) of
                (Inl e, w1) \<Rightarrow> (Inl e, w1)
              | (Inr u, w1) \<Rightarrow>
                  let w2 = (if verbose
                            then print (''Copying modules from etc/ into '' @ tree_mod) w1
                            else w1);
                      module_files = glob_modules w2 filespath
                  in (case copy_loop tree_mod module_files w2 of
                        (Inl e, w3) \<Rightarrow> (Inl e, w3)
                      | (Inr u, w3) \<Rightarrow>
                          let version = path_join filespath ''.version''
                          in if path_isfile w3 version then copy2 version tree_mod w3
                             else (Inr (), w3))))"

section \<open>Example inputs\<close>

definition new_events :: "world \<Rightarrow> world \<Rightarrow> event list" where
  "new_events w w' = drop (length (events w)) (events w')"

definition ex_localtime :: "int \<Rightarrow> struct_time" where
  "ex_localtime t = \<lparr>tm_year = 2018, tm_mon = 7, tm_mday = 14, tm_hour = 9, tm_min = nat t\<rparr>"

definition ex_world :: world where
  "ex_world =
     \<lparr>files = [(''/sas'', Dir 5), (''/sas/env'', Dir 6), (''/x'', Dir 7),
               (''/sas/env/OLD'', Link ''/gone'')],
      events = [], clock = 30, localtime = ex_localtime, readonly = [], getenv = [],
      stdin = []\<rparr>"

definition ex_environ :: environ where
  "ex_environ =
     \<lparr>default_section = \<lparr>name = ''v1'', current = True\<rparr>,
      sections = [(''general'', [(''sas_root'', ''/data'')]),
                  (''cat'', [(''spectro'', ''/x'')])]\<rparr>"

definition spec_example_environ :: environ where
  "spec_example_environ =
     \<lparr>default_section = \<lparr>name = ''v1'', current = True\<rparr>,
      sections = [(''general'', [(''sas_root'', ''/data'')]),
                  (''cat'', [(''spectro'', ''/data/spectro'')])]\<rparr>"

definition ex_etc_world :: world where
  "ex_etc_world =
     \<lparr>files = [(''etc'', Dir 1), (''etc/dr15.module'', File ''m15'' 11),
               (''etc/.version'', File ''v'' 12), (''etc/dr15.sh'', File ''s'' 13)],
      events = [], clock = 30, localtime = ex_localtime, readonly = [], getenv = [],
      stdin = []\<rparr>"


section \<open>Properties of symlink building\<close>

lemmas eval_defs = loop_body_def ex_world_def path_exists_def max_links_def resolve.simps
      os_stat_def make_symlink_def remove_link_def path_islink_def is_link_def os_symlink_def
      os_remove_def print_def new_events_def path_join_def startswith_def endswith_def
      upper_def upper_char_def Let_def

lemma is_link_simps [simp]:
  "is_link None = False" "is_link (Some (Link t)) = True"
  "is_link (Some (File c m)) = False" "is_link (Some (Dir m)) = False"
  by (simp_all add: is_link_def)

lemma new_events_print [simp]: "new_events w (print s w) = [Print s]"
  by (simp add: new_events_def print_def)

lemma new_events_self [simp]: "new_events w w = []"
  by (simp add: new_events_def)

lemma files_print [simp]: "files (print s w) = files w"
  by (simp add: print_def)

lemma events_print [simp]: "events (print s w) = events w @ [Print s]"
  by (simp add: print_def)

lemma path_islink_print [simp]: "path_islink (print s w) p = path_islink w p"
  by (simp add: path_islink_def)

lemma path_exists_print [simp]: "path_exists (print s w) p = path_exists w p"
  by (simp add: path_exists_def)

lemma map_of_remove_link:
  "map_of (files (remove_link l w)) =
     (if path_islink w l then (map_of (files w))(l := None) else map_of (files w))"
  by (simp add: remove_link_def os_remove_def delete_conv')

lemma events_remove_link:
  "events (remove_link l w) = events w @ (if path_islink w l then [Remove l] else [])"
  by (simp add: remove_link_def os_remove_def)

lemma not_islink_remove_link [simp]: "\<not> path_islink (remove_link l w) l"
  by (simp add: path_islink_def map_of_remove_link is_link_def)

text \<open>
  C1 (amended). A variable whose name contains \<^verbatim>\<open>_root\<close> is skipped in every section, not
  only in \<^verbatim>\<open>general\<close>: the loop body returns the table and the world unchanged, so no symlink
  is created or removed, nothing is printed and no row is added.
\<close>

theorem root_names_skipped_in_every_section:
  "in_str ''_root'' tree_name \<Longrightarrow>
     loop_body envdir section (tree_name, tree_path) table w = (Inr table, w)"
  by (simp add: loop_body_def)

theorem root_names_skipped_in_every_section_witness:
  "in_str ''_root'' ''foo_root'' \<and>
   loop_body ''/sas/env'' ''cat'' (''foo_root'', ''/x'') [] ex_world = (Inr [], ex_world)"
  using root_names_skipped_in_every_section [of "''foo_root''" "''/sas/env''" "''cat''" "''/x''" "[]" ex_world]
  by simp

text \<open>
  C1 as stated fails: in section \<^verbatim>\<open>cat\<close> the variable \<^verbatim>\<open>foo_root\<close> with an existing target
  leaves the world untouched, while the variable \<^verbatim>\<open>foo\<close> with the same target gets its link.
\<close>

theorem root_outside_general_counterexample:
  "''cat'' \<noteq> ''general'' \<and> in_str ''_root'' ''foo_root'' \<and> path_exists ex_world ''/x'' \<and>
   loop_body ''/sas/env'' ''cat'' (''foo_root'', ''/x'') [] ex_world = (Inr [], ex_world) \<and>
   new_events ex_world (snd (loop_body ''/sas/env'' ''cat'' (''foo'', ''/x'') [] ex_world)) =
     [Print ''Processing foo for cat'', Symlink ''/x'' ''/sas/env/FOO'']"
  by (simp add: eval_defs)

text \<open>
  C7. When \<^verbatim>\<open>os.stat\<close> of the target fails, the loop body raises nothing: it prints the
  message, removes a symlink of the variable's uppercased name in the env directory if there
  is one, leaves every other path alone, adds no row, and the loop goes on with the next
  variable.
\<close>

theorem stat_failure_skips_variable:
  assumes "\<not> in_str ''_root'' tree_name" and "os_stat w src = None"
  shows "\<exists>w'. loop_body envdir section (tree_name, src) table w = (Inr table, w') \<and>
           new_events w w' =
             Print (src @ '' does not appear to exist, skipping...'') #
             (if path_islink w (path_join envdir (upper tree_name))
              then [Remove (path_join envdir (upper tree_name))] else []) \<and>
           \<not> path_islink w' (path_join envdir (upper tree_name)) \<and>
           (\<forall>p. p \<noteq> path_join envdir (upper tree_name) \<longrightarrow>
                 map_of (files w') p = map_of (files w) p) \<and>
           values_loop envdir section ((tree_name, src) # vs) table w =
             values_loop envdir section vs table w'"
  using assms
  by (simp add: loop_body_def Let_def new_events_def events_remove_link map_of_remove_link)

theorem stat_failure_skips_variable_witness:
  "\<not> in_str ''_root'' ''old'' \<and> os_stat ex_world ''/gone'' = None \<and>
   path_islink ex_world ''/sas/env/OLD'' \<and>
   (\<exists>w'. loop_body ''/sas/env'' ''cat'' (''old'', ''/gone'') [] ex_world = (Inr [], w') \<and>
      new_events ex_world w' =
        [Print ''/gone does not appear to exist, skipping...'', Remove ''/sas/env/OLD''] \<and>
      \<not> path_islink w' ''/sas/env/OLD'')"
proof -
  have a: "\<not> in_str ''_root'' ''old''" by simp
  have b: "os_stat ex_world ''/gone'' = None"
    by (simp add: eval_defs)
  have c: "path_islink ex_world ''/sas/env/OLD''"
    by (simp add: eval_defs)
  have d: "path_join ''/sas/env'' (upper ''old'') = ''/sas/env/OLD''"
    by (simp add: eval_defs)
  from stat_failure_skips_variable [OF a b, of "''/sas/env''" "''cat''" "[]" "[]"] c d
  show ?thesis using a b by auto
qed

text \<open>
  C10. For a variable of section \<^verbatim>\<open>general\<close> whose name contains \<^verbatim>\<open>sas_base_dir\<close> the loop
  body never creates a symlink and never adds a row; when its target can be statted (and its
  name does not also contain \<^verbatim>\<open>_root\<close>) the only effect is the printed skip message.
\<close>

theorem sas_base_dir_never_linked:
  assumes "section = ''general''" and "in_str ''sas_base_dir'' tree_name"
  shows "\<exists>w'. loop_body envdir section (tree_name, src) table w = (Inr table, w') \<and>
           (\<forall>e \<in> set (new_events w w'). \<forall>s l. e \<noteq> Symlink s l) \<and>
           (\<forall>p. is_link (map_of (files w') p) \<longrightarrow> map_of (files w') p = map_of (files w) p) \<and>
           (\<not> in_str ''_root'' tree_name \<and> os_stat w src \<noteq> None \<longrightarrow>
              w' = print (''Skipping '' @ tree_name @ '' for general'') w)"
  using assms
  by (auto simp add: loop_body_def Let_def new_events_def events_remove_link map_of_remove_link
      is_link_def split: option.splits)


theorem sas_base_dir_never_linked_witness:
  "''general'' = ''general'' \<and> in_str ''sas_base_dir'' ''sas_base_dir'' \<and>
   \<not> in_str ''_root'' ''sas_base_dir'' \<and> os_stat ex_world ''/x'' \<noteq> None \<and>
   loop_body ''/sas/env'' ''general'' (''sas_base_dir'', ''/x'') [] ex_world =
     (Inr [], print ''Skipping sas_base_dir for general'' ex_world)"
proof -
  have a: "in_str ''sas_base_dir'' ''sas_base_dir''" by simp
  have b: "\<not> in_str ''_root'' ''sas_base_dir''" by simp
  have c: "os_stat ex_world ''/x'' \<noteq> None" by (simp add: eval_defs)
  from sas_base_dir_never_linked [OF refl a, of "''/sas/env''" "''/x''" "[]" ex_world] b c
  show ?thesis using a by auto
qed

lemma os_stat_None: "os_stat w p = None \<longleftrightarrow> \<not> path_exists w p"
  by (cases "resolve (files w) max_links p") (simp_all add: os_stat_def path_exists_def)

lemma make_symlink_free:
  assumes "map_of (files w) link = None \<or> is_link (map_of (files w) link)"
  shows "make_symlink src link w =
           (Inr (), w\<lparr>files := AList.update link (Link src) (files (remove_link link w)),
                       events := events (remove_link link w) @ [Symlink src link]\<rparr>)"
  using assms
  by (auto simp add: make_symlink_def os_symlink_def map_of_remove_link path_islink_def
      remove_link_def os_remove_def delete_conv' is_link_def)

text \<open>
  C6. Provided no regular file or directory occupies the link path: for \<^verbatim>\<open>cas_load\<close> and
  \<^verbatim>\<open>staging_data\<close> of section \<^verbatim>\<open>general\<close> the symlink is created if and only if the target
  exists; for a variable outside \<^verbatim>\<open>general\<close> that is not skipped for its name, the link is
  created when the target exists and a stale link is removed when it does not.
\<close>

theorem optional_and_other_sections_symlinks:
  assumes free: "map_of (files w) link = None \<or> is_link (map_of (files w) link)"
      and link: "link = path_join envdir (upper tree_name)"
      and run: "loop_body envdir section (tree_name, src) table w = (r, w')"
  shows "(section = ''general'' \<and> tree_name \<in> {''cas_load'', ''staging_data''} \<longrightarrow>
            (Symlink src link \<in> set (new_events w w') \<longleftrightarrow> path_exists w src) \<and>
            (map_of (files w') link = Some (Link src) \<longleftrightarrow> path_exists w src)) \<and>
         (section \<noteq> ''general'' \<and> \<not> in_str ''_root'' tree_name \<longrightarrow>
            (if path_exists w src
             then Symlink src link \<in> set (new_events w w') \<and>
                  map_of (files w') link = Some (Link src)
             else \<not> is_link (map_of (files w') link) \<and>
                  (is_link (map_of (files w) link) \<longrightarrow>
                     Remove link \<in> set (new_events w w'))))"
proof (cases "path_exists w src")
  case True
  have free': "map_of (files (print s w)) link = None \<or> is_link (map_of (files (print s w)) link)" for s
    using free by simp
  note ms = make_symlink_free [OF free] make_symlink_free [OF free']
  from run have run': "loop_body envdir section (tree_name, src) table w = (r, w')" .
  show ?thesis
    using True run'
    unfolding loop_body_def Let_def link [symmetric] fst_conv snd_conv
    by (auto simp add: ms new_events_def events_remove_link update_conv' os_stat_None
        split: option.splits)
next
  case False
  have islink: "is_link (map_of (files w) link) = path_islink w link"
    by (simp add: path_islink_def)
  have nolink: "\<not> path_islink w link \<Longrightarrow> map_of (files w) link = None"
    using free by (simp add: path_islink_def)
  have st: "os_stat w src = None"
    using False by (simp add: os_stat_None)
  have step: "w' = remove_link link (print (src @ '' does not appear to exist, skipping...'') w)"
    if "\<not> in_str ''_root'' tree_name"
    using run that unfolding loop_body_def Let_def link [symmetric] fst_conv snd_conv
    by (simp add: st)
  have ev: "new_events w w' = Print (src @ '' does not appear to exist, skipping...'') #
              (if path_islink w link then [Remove link] else [])"
    if "\<not> in_str ''_root'' tree_name"
    by (simp add: step [OF that] new_events_def events_remove_link)
  have fl: "map_of (files w') link = None" if "\<not> in_str ''_root'' tree_name"
    using nolink by (simp add: step [OF that] map_of_remove_link)
  have opt: "\<not> in_str ''_root'' tree_name" if "tree_name \<in> {''cas_load'', ''staging_data''}"
    using that by auto
  show ?thesis
    using False ev fl opt by (auto simp add: islink)
qed

theorem optional_and_other_sections_symlinks_witness:
  "(map_of (files ex_world) ''/sas/env/CAS_LOAD'' = None \<or>
      is_link (map_of (files ex_world) ''/sas/env/CAS_LOAD'')) \<and>
   ''/sas/env/CAS_LOAD'' = path_join ''/sas/env'' (upper ''cas_load'') \<and>
   path_exists ex_world ''/x'' \<and>
   map_of (files (snd (loop_body ''/sas/env'' ''general'' (''cas_load'', ''/x'') [] ex_world)))
     ''/sas/env/CAS_LOAD'' = Some (Link ''/x'')"
proof -
  have a: "map_of (files ex_world) ''/sas/env/CAS_LOAD'' = None \<or>
      is_link (map_of (files ex_world) ''/sas/env/CAS_LOAD'')"
    by (simp add: ex_world_def)
  have b: "''/sas/env/CAS_LOAD'' = path_join ''/sas/env'' (upper ''cas_load'')"
    by (simp add: eval_defs)
  have c: "path_exists ex_world ''/x''"
    by (simp add: eval_defs)
  have d: "loop_body ''/sas/env'' ''general'' (''cas_load'', ''/x'') [] ex_world =
      (fst (loop_body ''/sas/env'' ''general'' (''cas_load'', ''/x'') [] ex_world),
       snd (loop_body ''/sas/env'' ''general'' (''cas_load'', ''/x'') [] ex_world))"
    by simp
  from optional_and_other_sections_symlinks [OF a b d] a b c show ?thesis by simp
qed

text \<open>
  C5 (amended). When \<^verbatim>\<open>environ['general']['sas_root']\<close> does not exist, \<^verbatim>\<open>create_env\<close>
  returns normally and changes nothing in the file system; it prints its message only when
  \<^verbatim>\<open>verbose\<close> is set.
\<close>

theorem missing_sas_root_no_effect:
  assumes "lookup_var environ ''general'' ''sas_root'' = Inr sas_root"
      and "\<not> path_exists w sas_root"
  shows "create_env environ mirror verbose w =
           (Inr (), if verbose
                    then print (sas_root @ '' doesn't exist, skipping env link creation.'') w
                    else w)"
  using assms by (simp add: create_env_def)

theorem missing_sas_root_no_effect_witness:
  "lookup_var ex_environ ''general'' ''sas_root'' = Inr ''/data'' \<and>
   \<not> path_exists ex_world ''/data'' \<and>
   create_env ex_environ False True ex_world =
     (Inr (), print ''/data doesn't exist, skipping env link creation.'' ex_world)"
proof -
  have a: "lookup_var ex_environ ''general'' ''sas_root'' = Inr ''/data''"
    by (simp add: lookup_var_def ex_environ_def)
  have b: "\<not> path_exists ex_world ''/data''"
    by (simp add: eval_defs)
  from missing_sas_root_no_effect [OF a b, of False True] a b show ?thesis by simp
qed

text \<open>
  C5 as stated fails on "logs": without \<^verbatim>\<open>verbose\<close> nothing at all is printed.
\<close>

theorem missing_sas_root_logs_counterexample:
  "lookup_var ex_environ ''general'' ''sas_root'' = Inr ''/data'' \<and>
   \<not> path_exists ex_world ''/data'' \<and>
   create_env ex_environ False False ex_world = (Inr (), ex_world) \<and>
   new_events ex_world (snd (create_env ex_environ False False ex_world)) = []"
  by (simp add: create_env_def lookup_var_def ex_environ_def eval_defs)

subsection \<open>The index table\<close>

lemma sections_loop_vars_loop:
  "sections_loop envdir secs table w =
     vars_loop envdir
       (concat (map (\<lambda>(section, vals). map (\<lambda>(n, p). (section, n, p)) vals)
                  (filter (\<lambda>(section, vals). section \<noteq> ''default'') secs))) table w"
proof (induction secs arbitrary: table w)
  case Nil
  show ?case by simp
next
  case (Cons sv secs)
  obtain sec vals where sv: "sv = (sec, vals)" by (cases sv)
  have inner: "(case values_loop envdir sec vals table w of
                  (Inl e, w') \<Rightarrow> (Inl e, w')
                | (Inr table', w') \<Rightarrow> vars_loop envdir rest table' w') =
               vars_loop envdir (map (\<lambda>(n, p). (sec, n, p)) vals @ rest) table w"
    for rest
  proof (induction vals arbitrary: table w)
    case Nil
    show ?case by simp
  next
    case (Cons a vals)
    obtain n p where a: "a = (n, p)" by (cases a)
    obtain r1 w1 where lb: "loop_body envdir sec (n, p) table w = (r1, w1)"
      by (cases "loop_body envdir sec (n, p) table w")
    show ?case
    proof (cases r1)
      case (Inl e)
      then show ?thesis using lb by (simp add: a)
    next
      case (Inr t1)
      then show ?thesis using lb Cons.IH [of t1 w1] by (simp add: a)
    qed
  qed
  obtain r1 w1 where vl: "values_loop envdir sec vals table w = (r1, w1)"
    by (cases "values_loop envdir sec vals table w")
  let ?rest = "concat (map (\<lambda>(section, vals). map (\<lambda>(n, p). (section, n, p)) vals)
                  (filter (\<lambda>(section, vals). section \<noteq> ''default'') secs))"
  show ?case
  proof (cases "sec = ''default''")
    case True
    then show ?thesis by (simp add: sv Cons.IH)
  next
    case False
    have "vars_loop envdir (map (\<lambda>(n, p). (sec, n, p)) vals @ ?rest) table w =
          (case values_loop envdir sec vals table w of
             (Inl e, w') \<Rightarrow> (Inl e, w')
           | (Inr table', w') \<Rightarrow> vars_loop envdir ?rest table' w')"
      by (rule inner [symmetric])
    also have "\<dots> = (case values_loop envdir sec vals table w of
             (Inl e, w') \<Rightarrow> (Inl e, w')
           | (Inr table', w') \<Rightarrow> sections_loop envdir secs table' w')"
      by (cases r1) (simp_all add: vl Cons.IH)
    finally show ?thesis
      using False by (simp add: sv)
  qed
qed

lemma table_row_spec_row: "table_row n (strftime_dbYHM t) = spec_row n t"
  by (simp add: table_row_def spec_row_def strftime_dbYHM_def)

lemma os_stat_Some_exists: "os_stat w p = Some m \<Longrightarrow> path_exists w p"
  by (auto simp add: os_stat_def path_exists_def)

lemma loop_body_cases:
  obtains
    (skip) w' where "\<And>table. loop_body envdir section v table w = (Inr table, w')"
      and "\<not> reaches_symlink_step w section v"
  | (err) e w' where "\<And>table. loop_body envdir section v table w = (Inl e, w')"
  | (link) m w' where "os_stat w (snd v) = Some m" and "reaches_symlink_step w section v"
      and "\<And>table. loop_body envdir section v table w =
             (Inr (if path_exists w' (path_join envdir (upper (fst v)))
                   then table @ table_row (upper (fst v)) (strftime_dbYHM (localtime w m))
                   else table), w')"
proof -
  obtain n p where v: "v = (n, p)" by (cases v)
  show ?thesis
  proof (cases "in_str ''_root'' n")
    case True
    then show ?thesis
      by (intro skip [of w]) (simp_all add: loop_body_def v reaches_symlink_step_def)
  next
    case nr: False
    show ?thesis
    proof (cases "os_stat w p")
      case None
      then show ?thesis
        using nr
        by (intro skip [of "remove_link (path_join envdir (upper n))
                              (print (p @ '' does not appear to exist, skipping...'') w)"])
           (simp_all add: loop_body_def v reaches_symlink_step_def)
    next
      case (Some m)
      show ?thesis
      proof (cases "section = ''general'' \<and> in_str ''sas_base_dir'' n")
        case True
        then show ?thesis
          using nr Some
          by (intro skip [of "print (''Skipping '' @ n @ '' for '' @ section) w"])
             (simp_all add: loop_body_def v reaches_symlink_step_def)
      next
        case False
        let ?X = "if section = ''general'' \<and> n \<in> set [''cas_load'', ''staging_data'']
                  then (if path_exists w p
                        then make_symlink p (path_join envdir (upper n)) w
                        else (Inr (), print (''Skipping '' @ n @ '' for '' @ section) w))
                  else make_symlink p (path_join envdir (upper n))
                         (print (''Processing '' @ n @ '' for '' @ section) w)"
        obtain r1 w1 where X: "?X = (r1, w1)" by (cases ?X)
        have body: "loop_body envdir section (n, p) table w =
            (case ?X of
               (Inl e, w') \<Rightarrow> (Inl e, w')
             | (Inr u, w') \<Rightarrow>
                 (Inr (if path_exists w' (path_join envdir (upper n))
                       then table @ table_row (upper n) (strftime_dbYHM (localtime w m))
                       else table), w'))" for table
          using nr Some False unfolding loop_body_def Let_def fst_conv snd_conv
          by (simp only: if_False if_True option.case simp_thms)
        show ?thesis
        proof (cases r1)
          case (Inl e)
          show ?thesis
            by (rule err [of e w1]) (simp only: v body X Inl prod.case sum.case)
        next
          case (Inr u)
          show ?thesis
          proof (rule link [of m w1])
            show "os_stat w (snd v) = Some m" by (simp add: v Some)
            show "reaches_symlink_step w section v"
              using nr Some False by (simp add: reaches_symlink_step_def v)
            show "loop_body envdir section v table w =
               (Inr (if path_exists w1 (path_join envdir (upper (fst v)))
                     then table @ table_row (upper (fst v)) (strftime_dbYHM (localtime w m))
                     else table), w1)" for table
              by (simp only: body X Inr prod.case sum.case v fst_conv)
          qed
        qed
      qed
    qed
  qed
qed

lemma loop_body_table:
  "loop_body envdir section v table w =
     (case loop_body envdir section v [] w of
        (Inl e, w') \<Rightarrow> (Inl e, w')
      | (Inr r, w') \<Rightarrow> (Inr (table @ r), w'))"
  by (cases rule: loop_body_cases [of envdir "section" v w]) simp_all

lemma loop_body_row:
  assumes "loop_body envdir section v [] w = (Inr r, w')"
  shows "r = concat (case os_stat w (snd v) of
            None \<Rightarrow> []
          | Some m \<Rightarrow>
              if reaches_symlink_step w section v \<and>
                 path_exists w' (path_join envdir (upper (fst v)))
              then [spec_row (upper (fst v)) (localtime w m)]
              else [])"
  using assms
  by (cases rule: loop_body_cases [of envdir "section" v w])
     (auto simp add: table_row_spec_row split: option.splits)

lemma vars_loop_rows:
  "vars_loop envdir vs table w = (Inr table', w') \<Longrightarrow>
     table' = table @ concat (spec_rows envdir vs w)"
proof (induction vs arbitrary: table w)
  case Nil
  then show ?case by simp
next
  case (Cons sv vs)
  obtain sec v where sv: "sv = (sec, v)" by (cases sv)
  obtain r0 w0 where b0: "loop_body envdir sec v [] w = (r0, w0)"
    by (cases "loop_body envdir sec v [] w")
  show ?case
  proof (cases r0)
    case (Inl e)
    with Cons.prems show ?thesis
      by (simp add: sv loop_body_table [of envdir sec v table] b0)
  next
    case (Inr r)
    from Cons.prems have "vars_loop envdir vs (table @ r) w0 = (Inr table', w')"
      by (simp add: sv loop_body_table [of envdir sec v table] b0 Inr)
    from Cons.IH [OF this] have "table' = (table @ r) @ concat (spec_rows envdir vs w0)" .
    moreover from loop_body_row [OF b0 [unfolded Inr]] 
    have "r = concat (case os_stat w (snd v) of
            None \<Rightarrow> []
          | Some m \<Rightarrow>
              if reaches_symlink_step w sec v \<and>
                 path_exists w0 (path_join envdir (upper (fst v)))
              then [spec_row (upper (fst v)) (localtime w m)]
              else [])" .
    ultimately show ?thesis
      by (simp add: sv b0 Let_def split: option.splits)
  qed
qed

text \<open>
  C9. The table returned by \<^verbatim>\<open>create_index_table\<close> is the header, then exactly one row for
  each variable that gets to the symlink step and whose link exists right after that variable
  has been processed, in traversal order, then the footer; each row has \<^verbatim>\<open>-\<close> in the size
  column and the target's modification time as \<^verbatim>\<open>%d-%b-%Y %H:%M\<close> in local time.
\<close>

theorem index_table_rows:
  assumes "create_index_table environ envdir w = (Inr table, w')"
  shows "table = table_header @ concat (spec_rows envdir (traversal environ) w) @ table_footer"
proof -
  from assms obtain t where
    "sections_loop envdir (sections environ) table_header w = (Inr t, w')"
    and "table = t @ table_footer"
    by (auto simp add: create_index_table_def split: prod.splits sum.splits)
  then show ?thesis
    using vars_loop_rows [of envdir "traversal environ" table_header w t w']
    by (simp add: sections_loop_vars_loop traversal_def)
qed

lemma ex_strftime: "strftime_dbYHM (ex_localtime 7) = ''14-Jul-2018 09:07''"
  by (simp add: ex_localtime_def strftime_dbYHM_def pad2_def str_nat.simps month_abbr_def)

theorem index_table_rows_witness:
  "fst (create_index_table ex_environ ''/sas/env'' ex_world) =
     Inr (table_header @ table_row ''SPECTRO'' ''14-Jul-2018 09:07'' @ table_footer) \<and>
   table_header @ table_row ''SPECTRO'' ''14-Jul-2018 09:07'' @ table_footer =
     table_header @ concat (spec_rows ''/sas/env'' (traversal ex_environ) ex_world) @ table_footer"
proof -
  have f: "fst (create_index_table ex_environ ''/sas/env'' ex_world) =
      Inr (table_header @ table_row ''SPECTRO'' ''14-Jul-2018 09:07'' @ table_footer)"
    by (simp add: create_index_table_def ex_environ_def eval_defs ex_strftime update_conv'
        split: prod.splits)
  have h: "create_index_table ex_environ ''/sas/env'' ex_world =
      (Inr (table_header @ table_row ''SPECTRO'' ''14-Jul-2018 09:07'' @ table_footer),
       snd (create_index_table ex_environ ''/sas/env'' ex_world))"
    by (subst f [symmetric]) (rule prod.collapse [symmetric])
  show ?thesis
    by (rule conjI [OF f index_table_rows [OF h]])
qed

section \<open>Properties of the environment files\<close>

lemmas write_eval_defs = write_file_def write_header_def write_version_def strip_def
  rstrip_chars_def is_space_def write_text_def wtarget.simps max_links_def path_join_def
  startswith_def endswith_def nl_def Let_def

lemma write_values_concat:
  "write_values cmd vs f = f @ concat (map (\<lambda>v. cmd (upper (fst v)) (snd v)) vs)"
  by (induction vs arbitrary: f) auto

lemma write_sections_concat:
  "write_sections cmd secs f =
     f @ concat (map (\<lambda>(key, vals). ''#'' @ nl @ ''# '' @ key @ nl @ ''#'' @ nl @
                                     concat (map (\<lambda>v. cmd (upper (fst v)) (snd v)) vals))
               (filter (\<lambda>(key, vals). key \<noteq> ''default'') secs))"
  by (induction secs arbitrary: f) (auto simp add: write_values_concat)

lemma write_text_result:
  "write_text p s w = (r, w') \<Longrightarrow>
     (r = Inr () \<and> new_events w w' = [Write p s] \<and>
        (\<exists>q. wtarget (files w) max_links p = Some q \<and>
              map_of (files w') q = Some (File s (clock w)))) \<or>
     (r \<noteq> Inr () \<and> w' = w)"
  by (auto simp add: write_text_def new_events_def update_conv'
      split: option.splits node.splits)

lemma in_str_prefix: "prefix sub s \<Longrightarrow> in_str sub s"
  by (cases s) auto

lemma in_str_append: "in_str sub (xs @ sub @ ys)"
proof (induction xs)
  case Nil
  show ?case by (simp add: in_str_prefix)
next
  case (Cons x xs)
  then show ?case by simp
qed

lemma in_str_concat:
  assumes "x \<in> set xs"
  shows "in_str (f x) (concat (map f xs))"
proof -
  from assms obtain as bs where "xs = as @ x # bs"
    by (auto dest: split_list)
  then have "concat (map f xs) = concat (map f as) @ f x @ concat (map f bs)"
    by simp
  then show ?thesis
    by (simp only: in_str_append)
qed

lemma in_str_trans_append: "in_str sub s \<Longrightarrow> in_str sub (xs @ s @ ys)"
proof (induction s arbitrary: xs)
  case Nil
  then show ?case using in_str_append [of "[]" xs ys] by simp
next
  case (Cons c cs)
  from Cons.prems have "prefix sub (c # cs) \<or> in_str sub cs" by simp
  then show ?case
  proof
    assume "prefix sub (c # cs)"
    then obtain t where "c # cs = sub @ t" by (auto simp add: prefix_def)
    then have "xs @ (c # cs) @ ys = xs @ sub @ (t @ ys)" by simp
    then show ?thesis by (simp only: in_str_append)
  next
    assume "in_str sub cs"
    from Cons.IH [OF this, of "xs @ [c]"] show ?thesis by simp
  qed
qed

text \<open>
  C4. When \<^verbatim>\<open>write_file\<close> with dialect \<^verbatim>\<open>bash\<close> returns, it has written to
  \<^verbatim>\<open>out_dir/<name>.sh\<close> the header, a newline and then, for every section but \<^verbatim>\<open>default\<close> in
  the mapping's order, the comment separator naming the section followed by one
  \<^verbatim>\<open>export NAME=path\<close> line per variable in the section's order; no variable is left out, so
  every variable's line occurs in the body.
\<close>

theorem bash_file_lists_every_variable:
  assumes "write_file environ ''bash'' out_dir tree_dir w = (Inr (), w')"
  shows "\<exists>header q.
           write_header ''bash'' tree_dir (name (default_section environ)) = Inr header \<and>
           new_events w w' =
             [Write (path_join out_dir (name (default_section environ) @ ''.sh''))
                (header @ nl @ spec_bash_body environ)] \<and>
           wtarget (files w) max_links
             (path_join out_dir (name (default_section environ) @ ''.sh'')) = Some q \<and>
           map_of (files w') q =
             Some (File (header @ nl @ spec_bash_body environ) (clock w)) \<and>
           (\<forall>key vals v. (key, vals) \<in> set (sections environ) \<and> key \<noteq> ''default'' \<and>
                          v \<in> set vals \<longrightarrow>
                          in_str (spec_export_line v) (spec_bash_body environ))"
proof -
  let ?name = "name (default_section environ)"
  let ?cmd = "\<lambda>k v. ''export '' @ k @ ''='' @ v @ nl"
  from assms obtain header where hdr: "write_header ''bash'' tree_dir ?name = Inr header"
    by (cases "write_header ''bash'' tree_dir ?name") (auto simp add: write_file_def)
  have body: "write_sections ?cmd (sections environ) (header @ nl) =
                header @ nl @ spec_bash_body environ"
  proof -
    have "spec_export_line = (\<lambda>v. ''export '' @ upper (fst v) @ ''='' @ snd v @ nl)"
      by (rule ext) (simp add: spec_export_line_def)
    then show ?thesis
      by (simp add: write_sections_concat spec_bash_body_def)
  qed
  obtain r1 w1 where wt1: "write_text (path_join out_dir (?name @ ''.sh''))
                         (write_sections ?cmd (sections environ) (header @ nl)) w = (r1, w1)"
    by (cases "write_text (path_join out_dir (?name @ ''.sh''))
                 (write_sections ?cmd (sections environ) (header @ nl)) w")
  from assms wt1 have r1: "r1 = Inr () \<and> w1 = w'"
    by (cases r1) (simp_all add: write_file_def Let_def hdr)
  have wt: "write_text (path_join out_dir (?name @ ''.sh''))
              (header @ nl @ spec_bash_body environ) w = (Inr (), w')"
    unfolding body [symmetric] using wt1 r1 by simp
  have lines: "in_str (spec_export_line v) (spec_bash_body environ)"
    if kv: "(key, vals) \<in> set (sections environ)" and nd: "key \<noteq> ''default''"
      and v: "v \<in> set vals" for key vals v
  proof -
    let ?sec = "\<lambda>(key, vals). ''#'' @ nl @ ''# '' @ key @ nl @ ''#'' @ nl @
                                  concat (map spec_export_line vals)"
    from kv nd have "(key, vals) \<in> set (filter (\<lambda>(key, vals). key \<noteq> ''default'') (sections environ))"
      by simp
    then obtain as bs where
      "filter (\<lambda>(key, vals). key \<noteq> ''default'') (sections environ) = as @ (key, vals) # bs"
      by (auto dest: split_list)
    then have "spec_bash_body environ =
        (concat (map ?sec as) @ ''#'' @ nl @ ''# '' @ key @ nl @ ''#'' @ nl) @
        concat (map spec_export_line vals) @ concat (map ?sec bs)"
      by (simp add: spec_bash_body_def)
    moreover have "in_str (spec_export_line v) (concat (map spec_export_line vals))"
      by (rule in_str_concat [OF v])
    ultimately show ?thesis
      by (simp only: in_str_trans_append)
  qed
  from write_text_result [OF wt] hdr lines show ?thesis
    by blast
qed


theorem bash_file_lists_every_variable_witness:
  "fst (write_file spec_example_environ ''bash'' ''etc'' ''/tree/'' ex_etc_world) = Inr () \<and>
   in_str (''export SAS_ROOT=/data'' @ nl) (spec_bash_body spec_example_environ) \<and>
   in_str (''export SPECTRO=/data/spectro'' @ nl) (spec_bash_body spec_example_environ)"
proof -
  have f: "fst (write_file spec_example_environ ''bash'' ''etc'' ''/tree/'' ex_etc_world) = Inr ()"
    by (simp add: write_eval_defs spec_example_environ_def ex_etc_world_def
        split: prod.splits)
  have h: "write_file spec_example_environ ''bash'' ''etc'' ''/tree/'' ex_etc_world =
      (Inr (), snd (write_file spec_example_environ ''bash'' ''etc'' ''/tree/'' ex_etc_world))"
    by (subst f [symmetric]) (rule prod.collapse [symmetric])
  have s: "(''general'', [(''sas_root'', ''/data'')]) \<in> set (sections spec_example_environ)"
    and c: "(''cat'', [(''spectro'', ''/data/spectro'')]) \<in> set (sections spec_example_environ)"
    by (simp_all add: spec_example_environ_def)
  have l1: "spec_export_line (''sas_root'', ''/data'') = ''export SAS_ROOT=/data'' @ nl"
    and l2: "spec_export_line (''spectro'', ''/data/spectro'') = ''export SPECTRO=/data/spectro'' @ nl"
    by (simp_all add: spec_export_line_def upper_def upper_char_def)
  from bash_file_lists_every_variable [OF h] obtain header q where
    all: "\<forall>key vals v. (key, vals) \<in> set (sections spec_example_environ) \<and> key \<noteq> ''default'' \<and>
                          v \<in> set vals \<longrightarrow>
                          in_str (spec_export_line v) (spec_bash_body spec_example_environ)"
    by blast
  from all s have "in_str (spec_export_line (''sas_root'', ''/data'')) (spec_bash_body spec_example_environ)"
    by fastforce
  moreover from all c have "in_str (spec_export_line (''spectro'', ''/data/spectro'')) (spec_bash_body spec_example_environ)"
    by fastforce
  ultimately show ?thesis
    using f by (simp only: l1 l2 simp_thms)
qed

lemma write_text_events:
  "write_text p s w = (r, w') \<Longrightarrow>
     (r = Inr () \<and> events w' = events w @ [Write p s]) \<or> (r \<noteq> Inr () \<and> w' = w)"
  by (auto simp add: write_text_def split: option.splits node.splits)

lemma last_path_join: "b \<noteq> [] \<Longrightarrow> last (path_join a b) = last b"
  by (simp add: path_join_def)

lemma script_not_version:
  assumes "ext \<in> {''.sh'', ''.csh'', ''.module''}"
  shows "path_join out_dir (n @ ext) \<noteq> path_join out_dir ''.version''"
proof
  assume "path_join out_dir (n @ ext) = path_join out_dir ''.version''"
  then have "last (path_join out_dir (n @ ext)) = last (path_join out_dir ''.version'')"
    by simp
  moreover have "n @ ext \<noteq> []" using assms by auto
  ultimately have "last (n @ ext) = last ''.version''"
    by (simp add: last_path_join)
  with assms show False by auto
qed

text \<open>
  C3. \<^verbatim>\<open>write_file\<close> only ever writes files; it writes \<^verbatim>\<open>out_dir/.version\<close> only for dialect
  \<^verbatim>\<open>modules\<close> with \<^verbatim>\<open>current\<close> true, and then with exactly the two lines
  \<^verbatim>\<open>#%Module1.0\<close> and \<^verbatim>\<open>set ModulesVersion <name>\<close>; when it returns normally for that
  dialect with \<^verbatim>\<open>current\<close> true, it has written that file.
\<close>

theorem version_file_written_iff:
  assumes run: "write_file environ term out_dir tree_dir w = (r, w')"
  shows "(\<forall>c. Write (path_join out_dir ''.version'') c \<in> set (new_events w w') \<longrightarrow>
            term = ''modules'' \<and> current (default_section environ) \<and>
            c = ''#%Module1.0'' @ nl @ ''set ModulesVersion '' @ name (default_section environ)) \<and>
         (r = Inr () \<and> term = ''modules'' \<and> current (default_section environ) \<longrightarrow>
            Write (path_join out_dir ''.version'')
              (''#%Module1.0'' @ nl @ ''set ModulesVersion '' @ name (default_section environ))
              \<in> set (new_events w w')) \<and>
         (\<forall>e \<in> set (new_events w w'). \<exists>p c. e = Write p c)"
proof (cases "write_header term tree_dir (name (default_section environ))")
  case (Inl e)
  with run have "w' = w" "r \<noteq> Inr ()"
    by (auto simp add: write_file_def)
  then show ?thesis by (simp add: new_events_def)
next
  case (Inr header)
  then have tm: "term \<in> set [''bash'', ''tsch'', ''modules'']"
    by (auto simp add: write_header_def split: if_splits)
  then obtain ext where
    ext: "map_of [(''bash'', ''.sh''), (''tsch'', ''.csh''), (''modules'', ''.module'')] term = Some ext"
    and ext_in: "ext \<in> {''.sh'', ''.csh'', ''.module''}"
    by auto
  let ?cmd = "if term = ''bash''
              then (\<lambda>k v. ''export '' @ k @ ''='' @ v @ nl)
              else (\<lambda>k v. ''setenv '' @ k @ '' '' @ v @ nl)"
  let ?filename = "path_join out_dir (name (default_section environ) @ ext)"
  let ?vpath = "path_join out_dir ''.version''"
  let ?vc = "write_version (name (default_section environ))"
  note ne = script_not_version [OF ext_in, of out_dir "name (default_section environ)"]
  obtain r1 w1 where w1: "write_text ?filename
      (write_sections ?cmd (sections environ) (header @ nl)) w = (r1, w1)"
    by (cases "write_text ?filename (write_sections ?cmd (sections environ) (header @ nl)) w")
  from run w1 ext have rest:
    "(case r1 of Inl e \<Rightarrow> (Inl e, w1)
      | Inr u \<Rightarrow> if term = ''modules'' \<and> current (default_section environ)
                 then write_text ?vpath ?vc w1 else (Inr (), w1)) = (r, w')"
    by (cases r1) (auto simp add: write_file_def Let_def Inr)
  from write_text_events [OF w1] show ?thesis
  proof
    assume "r1 \<noteq> Inr () \<and> w1 = w"
    with rest have "w' = w" "r \<noteq> Inr ()"
      by (cases r1; auto)+
    then show ?thesis by (simp add: new_events_def)
  next
    assume ok: "r1 = Inr () \<and> events w1 = events w @ [Write ?filename
        (write_sections ?cmd (sections environ) (header @ nl))]"
    show ?thesis
    proof (cases "term = ''modules'' \<and> current (default_section environ)")
      case False
      with rest ok have "w' = w1" by auto
      with ok False ne show ?thesis
        by (auto simp add: new_events_def)
    next
      case True
      with rest ok have v: "write_text ?vpath ?vc w1 = (r, w')" by auto
      from write_text_events [OF v] show ?thesis
      proof
        assume "r \<noteq> Inr () \<and> w' = w1"
        with ok ne show ?thesis
          by (auto simp add: new_events_def)
      next
        assume "r = Inr () \<and> events w' = events w1 @ [Write ?vpath ?vc]"
        with ok ne True show ?thesis
          by (auto simp add: new_events_def write_version_def)
      qed
    qed
  qed
qed


theorem version_file_written_iff_witness:
  "fst (write_file spec_example_environ ''modules'' ''etc'' ''/tree/'' ex_etc_world) = Inr () \<and>
   current (default_section spec_example_environ) \<and>
   Write ''etc/.version'' (''#%Module1.0'' @ nl @ ''set ModulesVersion v1'')
     \<in> set (new_events ex_etc_world
              (snd (write_file spec_example_environ ''modules'' ''etc'' ''/tree/'' ex_etc_world)))"
proof -
  have f: "fst (write_file spec_example_environ ''modules'' ''etc'' ''/tree/'' ex_etc_world) = Inr ()"
    by (simp add: write_eval_defs spec_example_environ_def ex_etc_world_def
        split: prod.splits)
  have c: "current (default_section spec_example_environ)"
    and n: "name (default_section spec_example_environ) = ''v1''"
    by (simp_all add: spec_example_environ_def)
  have p: "path_join ''etc'' ''.version'' = ''etc/.version''"
    by (simp add: path_join_def startswith_def endswith_def)
  have run: "write_file spec_example_environ ''modules'' ''etc'' ''/tree/'' ex_etc_world =
      (fst (write_file spec_example_environ ''modules'' ''etc'' ''/tree/'' ex_etc_world),
       snd (write_file spec_example_environ ''modules'' ''etc'' ''/tree/'' ex_etc_world))"
    by simp
  from version_file_written_iff [OF run] f c
  have "Write (path_join ''etc'' ''.version'')
          (''#%Module1.0'' @ nl @ ''set ModulesVersion '' @ name (default_section spec_example_environ))
        \<in> set (new_events ex_etc_world
              (snd (write_file spec_example_environ ''modules'' ''etc'' ''/tree/'' ex_etc_world)))"
    by blast
  moreover have "''set ModulesVersion '' @ ''v1'' = ''set ModulesVersion v1''"
    by simp
  ultimately show ?thesis
    using f c by (simp only: p n simp_thms)
qed

end
